theory Spec2Isabelle
  imports Complex_Main "HOL-Library.Sublist" "HOL-Library.Finite_Map"
begin

section \<open>Python values, exceptions and effects\<close>

text \<open>
  The two scripts \<^verbatim>\<open>scripts/test_rdb_phase_sync.py\<close> and
  \<^verbatim>\<open>scripts/test_stream_replication.py\<close> talk to two stores through
  \<^verbatim>\<open>redis.Redis\<close> clients. Everything outside the scripts (the stores, the
  replication engine running between them, the clock, the operator at the terminal) is
  the world \<open>'w\<close>: every client command takes the world and returns the new one
  together with its reply or the exception it raised. Console output is not modelled.

  Strings are byte strings; the two non-ASCII words of the generator are written as
  their UTF-8 bytes. A Python \<^verbatim>\<open>dict\<close> read from a store is a finite map.
\<close>

datatype exn =
    ResponseError string
  | AuthenticationError string
  | ConnectionError string
  | OtherException string
  | KeyboardInterrupt

text \<open>
  \<^verbatim>\<open>except Exception\<close> catches every exception of the scripts but the operator's
  \<^verbatim>\<open>KeyboardInterrupt\<close>, which any blocking call can raise.
\<close>

fun is_Exception :: "exn \<Rightarrow> bool" where
  "is_Exception KeyboardInterrupt = False"
| "is_Exception e = True"

text \<open>\<^verbatim>\<open>str(e)\<close>: the message of the exception.\<close>

fun exn_str :: "exn \<Rightarrow> string" where
  "exn_str (ResponseError m) = m"
| "exn_str (AuthenticationError m) = m"
| "exn_str (ConnectionError m) = m"
| "exn_str (OtherException m) = m"
| "exn_str KeyboardInterrupt = []"

text \<open>
  The ways a block of a script ends: it returns, it raises, or it calls
  \<^verbatim>\<open>sys.exit(n)\<close> (\<^verbatim>\<open>SystemExit\<close>, caught by no handler of the scripts).
\<close>

datatype 'a py = Return 'a | Raise exn | Exit int

type_synonym ('w, 'a) io = "'w \<Rightarrow> (exn + 'a) \<times> 'w"

type_synonym ('w, 'a) proc = "'w \<Rightarrow> 'a py \<times> 'w"

definition io_return :: "'a \<Rightarrow> ('w, 'a) io" where
  "io_return a w = (Inr a, w)"

definition io_bind :: "('w, 'a) io \<Rightarrow> ('a \<Rightarrow> ('w, 'b) io) \<Rightarrow> ('w, 'b) io" where
  "io_bind m f w = (case m w of (Inl e, w') \<Rightarrow> (Inl e, w') | (Inr a, w') \<Rightarrow> f a w')"

text \<open>\<^verbatim>\<open>try: body except Exception as e: handler\<close>.\<close>

definition try_except :: "('w, 'a) io \<Rightarrow> (exn \<Rightarrow> ('w, 'a) io) \<Rightarrow> ('w, 'a) io" where
  "try_except body handler w =
     (case body w of
        (Inl e, w') \<Rightarrow> if is_Exception e then handler e w' else (Inl e, w')
      | (Inr a, w') \<Rightarrow> (Inr a, w'))"

text \<open>A \<^verbatim>\<open>for\<close> loop whose body is one command: the first exception leaves it.\<close>

fun io_each :: "('a \<Rightarrow> ('w, 'b) io) \<Rightarrow> 'a list \<Rightarrow> ('w, unit) io" where
  "io_each f [] w = (Inr (), w)"
| "io_each f (x # xs) w =
     (case f x w of (Inl e, w') \<Rightarrow> (Inl e, w') | (Inr _, w') \<Rightarrow> io_each f xs w')"

definition proc_return :: "'a \<Rightarrow> ('w, 'a) proc" where
  "proc_return a w = (Return a, w)"

definition proc_bind :: "('w, 'a) proc \<Rightarrow> ('a \<Rightarrow> ('w, 'b) proc) \<Rightarrow> ('w, 'b) proc" where
  "proc_bind m f w =
     (case m w of
        (Return a, w') \<Rightarrow> f a w'
      | (Raise e, w') \<Rightarrow> (Raise e, w')
      | (Exit c, w') \<Rightarrow> (Exit c, w'))"

text \<open>A call of a function that does not call \<^verbatim>\<open>sys.exit\<close>.\<close>

definition call :: "('w, 'a) io \<Rightarrow> ('w, 'a) proc" where
  "call m w = (case m w of (Inl e, w') \<Rightarrow> (Raise e, w') | (Inr a, w') \<Rightarrow> (Return a, w'))"

definition sys_exit :: "int \<Rightarrow> ('w, 'a) proc" where
  "sys_exit c w = (Exit c, w)"

subsection \<open>Formatting\<close>

definition digit_char :: "nat \<Rightarrow> char" where
  "digit_char d = ''0123456789'' ! (d mod 10)"

text \<open>\<^verbatim>\<open>str(n)\<close> for a natural number.\<close>

fun str_nat :: "nat \<Rightarrow> string" where
  "str_nat n = (if n < 10 then [digit_char n] else str_nat (n div 10) @ [digit_char (n mod 10)])"

declare str_nat.simps [simp del]

text \<open>\<^verbatim>\<open>str(n)\<close> for an integer.\<close>

definition str_int :: "int \<Rightarrow> string" where
  "str_int n = (if n < 0 then CHR ''-'' # str_nat (nat (- n)) else str_nat (nat n))"

text \<open>\<^verbatim>\<open>f"{i:03d}"\<close>: zero-padded to width three, longer numbers unchanged.\<close>

definition fmt_03d :: "nat \<Rightarrow> string" where
  "fmt_03d i = replicate (3 - length (str_nat i)) CHR ''0'' @ str_nat i"

text \<open>\<^verbatim>\<open>str.lower()\<close> on ASCII letters; other bytes are unchanged.\<close>

definition lower_char :: "char \<Rightarrow> char" where
  "lower_char c =
     (let n = (of_char c :: nat) in if 65 \<le> n \<and> n \<le> 90 then char_of (n + 32) else c)"

definition lower :: "string \<Rightarrow> string" where
  "lower s = map lower_char s"

text \<open>\<^verbatim>\<open>needle in haystack\<close> for strings.\<close>

fun str_contains :: "string \<Rightarrow> string \<Rightarrow> bool" where
  "str_contains needle [] = (needle = [])"
| "str_contains needle (c # cs) = (prefix needle (c # cs) \<or> str_contains needle cs)"

section \<open>The store client\<close>

text \<open>
  The commands of \<^verbatim>\<open>redis.Redis\<close> (with \<^verbatim>\<open>decode_responses=True\<close>) that the
  scripts call, with the reply types the client library gives them. A sorted-set score
  is a number; a stream entry is its id with its field map.
\<close>

type_synonym stream_entry = "string \<times> (string, string) fmap"

record stream_info =
  si_length :: int
  si_first_entry :: "stream_entry option"
  si_last_entry :: "stream_entry option"

record 'w redis =
  r_ping :: "('w, bool) io"
  r_keys :: "string \<Rightarrow> ('w, string list) io"
  r_delete :: "string list \<Rightarrow> ('w, int) io"
  r_set :: "string \<Rightarrow> string \<Rightarrow> nat option \<Rightarrow> ('w, bool) io"
  r_hset :: "string \<Rightarrow> (string \<times> string) list \<Rightarrow> ('w, int) io"
  r_lpush :: "string \<Rightarrow> string list \<Rightarrow> ('w, int) io"
  r_sadd :: "string \<Rightarrow> string list \<Rightarrow> ('w, int) io"
  r_zadd :: "string \<Rightarrow> (string \<times> real) list \<Rightarrow> ('w, int) io"
  r_exists :: "string \<Rightarrow> ('w, int) io"
  r_type :: "string \<Rightarrow> ('w, string) io"
  r_get :: "string \<Rightarrow> ('w, string option) io"
  r_hgetall :: "string \<Rightarrow> ('w, (string, string) fmap) io"
  r_lrange :: "string \<Rightarrow> int \<Rightarrow> int \<Rightarrow> ('w, string list) io"
  r_smembers :: "string \<Rightarrow> ('w, string set) io"
  r_zrange_withscores :: "string \<Rightarrow> int \<Rightarrow> int \<Rightarrow> ('w, (string \<times> real) list) io"
  r_xinfo_stream :: "string \<Rightarrow> ('w, stream_info) io"
  r_xrange :: "string \<Rightarrow> ('w, stream_entry list) io"
  r_xadd :: "string \<Rightarrow> (string \<times> string) list \<Rightarrow> string \<Rightarrow> (nat \<times> bool) option \<Rightarrow> ('w, string) io"
  r_xtrim :: "string \<Rightarrow> nat \<Rightarrow> bool \<Rightarrow> ('w, int) io"
  r_execute_command :: "string list \<Rightarrow> ('w, int) io"

text \<open>The clock, the pauses and the prompts of a script: \<^verbatim>\<open>int(time.time())\<close>,
  \<^verbatim>\<open>time.sleep\<close> (in milliseconds), during which the world moves on, and
  \<^verbatim>\<open>input\<close>.\<close>

record 'w os =
  os_time :: "'w \<Rightarrow> int"
  os_sleep :: "nat \<Rightarrow> ('w, unit) io"
  os_input :: "('w, string) io"

section \<open>The RDB-phase script: generating the test keys\<close>

definition TEST_PREFIX :: string where
  "TEST_PREFIX = ''rdb_phase_test:''"

definition TEST_KEYS_COUNT :: nat where
  "TEST_KEYS_COUNT = 20"

text \<open>An entry of \<^verbatim>\<open>test_keys\<close>: the key, its kind label and the expected value.\<close>

type_synonym test_key = "string \<times> string \<times> string option"

text \<open>The UTF-8 bytes of the non-ASCII parts of the sixth payload.\<close>

definition special_word :: string where
  "special_word = [CHR 0xE6, CHR 0xB5, CHR 0x8B, CHR 0xE8, CHR 0xAF, CHR 0x95]"

definition fire_sign :: string where
  "fire_sign = [CHR 0xF0, CHR 0x9F, CHR 0x94, CHR 0xA5]"

text \<open>
  One iteration of the loop of \<^verbatim>\<open>write_test_data\<close>, up to the entry it appends:
  \<^verbatim>\<open>data_type = i % 6\<close> chooses the command. The replies of the writes are not
  used; an exception leaves the loop.
\<close>

definition write_key :: "'w os \<Rightarrow> 'w redis \<Rightarrow> nat \<Rightarrow> ('w, test_key) io" where
  "write_key os source_r i w =
     (let key = TEST_PREFIX @ ''key_'' @ fmt_03d i;
          data_type = i mod 6
      in
        if data_type = 0 then
          (let v = ''test_value_'' @ str_nat i @ ''_timestamp_'' @ str_int (os_time os w)
           in io_bind (r_set source_r key v (Some 600))
                (\<lambda>_. io_return (key, ''string'', Some v)) w)
        else if data_type = 1 then
          io_bind (r_hset source_r key
                     [(''field1'', ''value_'' @ str_nat i @ ''_1''),
                      (''field2'', ''value_'' @ str_nat i @ ''_2''),
                      (''counter'', str_nat i)])
            (\<lambda>_. io_return (key, ''hash'', None)) w
        else if data_type = 2 then
          io_bind (r_lpush source_r key
                     [''item_'' @ str_nat i @ ''_1'', ''item_'' @ str_nat i @ ''_2'',
                      ''item_'' @ str_nat i @ ''_3''])
            (\<lambda>_. io_return (key, ''list'', None)) w
        else if data_type = 3 then
          io_bind (r_sadd source_r key
                     [''member_'' @ str_nat i @ ''_1'', ''member_'' @ str_nat i @ ''_2'',
                      ''member_'' @ str_nat i @ ''_3''])
            (\<lambda>_. io_return (key, ''set'', None)) w
        else if data_type = 4 then
          io_bind (r_zadd source_r key
                     [(''member_'' @ str_nat i @ ''_1'', real (i * 10)),
                      (''member_'' @ str_nat i @ ''_2'', real (i * 10 + 5)),
                      (''member_'' @ str_nat i @ ''_3'', real (i * 10 + 10))])
            (\<lambda>_. io_return (key, ''zset'', None)) w
        else
          (let v = ''special_'' @ special_word @ ''_'' @ str_nat i @ ''_'' @ fire_sign @ ''_''
                     @ str_int (os_time os w)
           in io_bind (r_set source_r key v None)
                (\<lambda>_. io_return (key, ''string'', Some v)) w))"

text \<open>The loop \<^verbatim>\<open>for i in range(...)\<close> with its \<^verbatim>\<open>time.sleep(0.1)\<close> after each write.\<close>

fun write_keys :: "'w os \<Rightarrow> 'w redis \<Rightarrow> nat list \<Rightarrow> test_key list \<Rightarrow> ('w, test_key list) io" where
  "write_keys os source_r [] test_keys w = (Inr test_keys, w)"
| "write_keys os source_r (i # rest) test_keys w =
     (case write_key os source_r i w of
        (Inl e, w') \<Rightarrow> (Inl e, w')
      | (Inr entry, w') \<Rightarrow>
          (case os_sleep os 100 w' of
             (Inl e, w'') \<Rightarrow> (Inl e, w'')
           | (Inr _, w'') \<Rightarrow> write_keys os source_r rest (test_keys @ [entry]) w''))"

text \<open>
  \<^verbatim>\<open>write_test_data\<close> for a count \<open>n\<close>: the \<^verbatim>\<open>except Exception\<close> around the loop
  turns an exception into \<^verbatim>\<open>(False, [])\<close>.
\<close>

definition write_n_test_keys :: "'w os \<Rightarrow> 'w redis \<Rightarrow> nat \<Rightarrow> ('w, bool \<times> test_key list) io" where
  "write_n_test_keys os source_r n =
     try_except
       (io_bind (write_keys os source_r [0..<n] []) (\<lambda>test_keys. io_return (True, test_keys)))
       (\<lambda>e. io_return (False, []))"

definition write_test_data :: "'w os \<Rightarrow> 'w redis \<Rightarrow> ('w, bool \<times> test_key list) io" where
  "write_test_data os source_r = write_n_test_keys os source_r TEST_KEYS_COUNT"

section \<open>The RDB-phase script: verifying the test keys\<close>

text \<open>
  What one iteration of the loop of \<^verbatim>\<open>verify_test_data\<close> does with its key: it counts a
  success, or it counts a failure and appends one line to \<^verbatim>\<open>fail_details\<close>.
\<close>

datatype outcome =
    Verified
  | Missing
  | TypeMismatch string string
  | ValueMismatch string
  | VerificationError exn

text \<open>The line appended to \<^verbatim>\<open>fail_details\<close>.\<close>

fun fail_detail :: "string \<Rightarrow> outcome \<Rightarrow> string option" where
  "fail_detail key Verified = None"
| "fail_detail key Missing = Some (key @ '': Missing in target'')"
| "fail_detail key (TypeMismatch src_type dst_type) =
     Some (key @ '': Type mismatch (src='' @ src_type @ '', dst='' @ dst_type @ '')'')"
| "fail_detail key (ValueMismatch what) = Some (key @ '': '' @ what @ '' mismatch'')"
| "fail_detail key (VerificationError e) = Some (key @ '': Verification error - '' @ exn_str e)"

text \<open>The body of the \<^verbatim>\<open>try\<close>: existence on the target, the two type labels, then the
  comparison chosen by the recorded kind label.\<close>

definition check_key :: "'w redis \<Rightarrow> 'w redis \<Rightarrow> string \<Rightarrow> string \<Rightarrow> ('w, outcome) io" where
  "check_key source_r target_r key key_type =
     io_bind (r_exists target_r key) (\<lambda>found.
       if found = 0 then io_return Missing
       else
         io_bind (r_type source_r key) (\<lambda>src_type.
         io_bind (r_type target_r key) (\<lambda>dst_type.
           if src_type \<noteq> dst_type then io_return (TypeMismatch src_type dst_type)
           else if key_type = ''string'' then
             io_bind (r_get source_r key) (\<lambda>src_val.
             io_bind (r_get target_r key) (\<lambda>dst_val.
               io_return (if src_val \<noteq> dst_val then ValueMismatch ''Value'' else Verified)))
           else if key_type = ''hash'' then
             io_bind (r_hgetall source_r key) (\<lambda>src_hash.
             io_bind (r_hgetall target_r key) (\<lambda>dst_hash.
               io_return (if src_hash \<noteq> dst_hash then ValueMismatch ''Hash'' else Verified)))
           else if key_type = ''list'' then
             io_bind (r_lrange source_r key 0 (- 1)) (\<lambda>src_list.
             io_bind (r_lrange target_r key 0 (- 1)) (\<lambda>dst_list.
               io_return (if src_list \<noteq> dst_list then ValueMismatch ''List'' else Verified)))
           else if key_type = ''set'' then
             io_bind (r_smembers source_r key) (\<lambda>src_set.
             io_bind (r_smembers target_r key) (\<lambda>dst_set.
               io_return (if src_set \<noteq> dst_set then ValueMismatch ''Set'' else Verified)))
           else if key_type = ''zset'' then
             io_bind (r_zrange_withscores source_r key 0 (- 1)) (\<lambda>src_zset.
             io_bind (r_zrange_withscores target_r key 0 (- 1)) (\<lambda>dst_zset.
               io_return (if src_zset \<noteq> dst_zset then ValueMismatch ''ZSet'' else Verified)))
           else io_return Verified)))"

text \<open>The \<^verbatim>\<open>except Exception\<close> of the loop body: an exception of any query is this key's
  failure.\<close>

definition verify_key :: "'w redis \<Rightarrow> 'w redis \<Rightarrow> test_key \<Rightarrow> ('w, outcome) io" where
  "verify_key source_r target_r entry =
     (case entry of (key, key_type, expected_value) \<Rightarrow>
        try_except (check_key source_r target_r key key_type)
          (\<lambda>e. io_return (VerificationError e)))"

text \<open>The loop over \<^verbatim>\<open>test_keys\<close> with its three accumulators.\<close>

fun verify_loop ::
  "'w redis \<Rightarrow> 'w redis \<Rightarrow> test_key list \<Rightarrow> nat \<Rightarrow> nat \<Rightarrow> string list
     \<Rightarrow> ('w, nat \<times> nat \<times> string list) io" where
  "verify_loop source_r target_r [] success_count fail_count fail_details w =
     (Inr (success_count, fail_count, fail_details), w)"
| "verify_loop source_r target_r (entry # rest) success_count fail_count fail_details w =
     (case verify_key source_r target_r entry w of
        (Inl e, w') \<Rightarrow> (Inl e, w')
      | (Inr out, w') \<Rightarrow>
          (case fail_detail (fst entry) out of
             None \<Rightarrow>
               verify_loop source_r target_r rest (success_count + 1) fail_count fail_details w'
           | Some line \<Rightarrow>
               verify_loop source_r target_r rest success_count (fail_count + 1)
                 (fail_details @ [line]) w'))"

definition verify_test_data ::
  "'w redis \<Rightarrow> 'w redis \<Rightarrow> test_key list \<Rightarrow> ('w, nat \<times> nat \<times> string list) io" where
  "verify_test_data source_r target_r test_keys = verify_loop source_r target_r test_keys 0 0 []"

section \<open>The RDB-phase script: the test flow\<close>





definition clean_test_keys :: "'w redis \<Rightarrow> ('w, unit) io" where
  "clean_test_keys r =
     try_except
       (io_bind (r_keys r (TEST_PREFIX @ ''*'')) (\<lambda>keys.
          if keys \<noteq> [] then io_bind (r_delete r keys) (\<lambda>_. io_return ())
          else io_return ()))
       (\<lambda>e. io_return ())"

definition wait_for_user_start :: "'w os \<Rightarrow> ('w, unit) io" where
  "wait_for_user_start os = io_bind (os_input os) (\<lambda>_. io_return ())"

text \<open>
  Step 8 of \<^verbatim>\<open>main\<close>, the results summary: with failures it prints the data loss rate
  \<^verbatim>\<open>(fail_count / len(test_keys)) * 100\<close> and the failed keys, without failures the line
  "SUCCESS! All test keys synchronized correctly (0% data loss)". The rate is taken as
  an exact number; a division by zero raises.
\<close>

datatype summary = DataLoss real "string list" | AllSynced

definition results_summary :: "nat \<Rightarrow> nat \<Rightarrow> string list \<Rightarrow> nat \<Rightarrow> ('w, summary) io" where
  "results_summary success_count fail_count fail_details n_keys =
     (if fail_count > 0 then
        (if n_keys = 0 then (\<lambda>w. (Inl (OtherException ''division by zero''), w))
         else io_return (DataLoss ((real fail_count / real n_keys) * 100) fail_details))
      else io_return AllSynced)"


text \<open>Step 6 of \<^verbatim>\<open>main\<close>: \<^verbatim>\<open>wait_seconds // 10\<close> pauses of ten seconds.\<close>

definition wait_seconds :: nat where
  "wait_seconds = 120"

definition settle :: "'w os \<Rightarrow> ('w, unit) io" where
  "settle os = io_each (\<lambda>i. os_sleep os 10000) [0..<wait_seconds div 10]"

text \<open>Steps 4 to 9 of \<^verbatim>\<open>main\<close>, once both connections are open and cleaned.\<close>

definition test_flow :: "'w os \<Rightarrow> 'w redis \<Rightarrow> 'w redis \<Rightarrow> ('w, summary) proc" where
  "test_flow os source_r target_r =
     proc_bind (call (wait_for_user_start os)) (\<lambda>_.
     proc_bind (call (write_test_data os source_r)) (\<lambda>(success, test_keys).
       if \<not> success then sys_exit 1
       else
         proc_bind (call (settle os)) (\<lambda>_.
         proc_bind (call (verify_test_data source_r target_r test_keys))
           (\<lambda>(success_count, fail_count, fail_details).
         proc_bind (call (results_summary success_count fail_count fail_details (length test_keys)))
           (\<lambda>shown.
         proc_bind (call (os_input os)) (\<lambda>answer.
         proc_bind
           (if lower answer = ''y'' then
              call (io_bind (clean_test_keys source_r) (\<lambda>_. clean_test_keys target_r))
            else proc_return ())
           (\<lambda>_. sys_exit (if fail_count = 0 then 0 else 1))))))))"




section \<open>The stream script\<close>

record 'w tester =
  source :: "'w redis"
  target :: "'w redis"



text \<open>The loop over \<^verbatim>\<open>zip(source_entries, target_entries)\<close>: is there a pair whose ids
  or whose data differ?\<close>

fun entries_differ :: "stream_entry list \<Rightarrow> stream_entry list \<Rightarrow> bool" where
  "entries_differ (src_entry # src_rest) (tgt_entry # tgt_rest) =
     (case src_entry of (src_id, src_data) \<Rightarrow>
      case tgt_entry of (tgt_id, tgt_data) \<Rightarrow>
        if src_id \<noteq> tgt_id then True
        else if src_data \<noteq> tgt_data then True
        else entries_differ src_rest tgt_rest)"
| "entries_differ _ _ = False"

text \<open>The \<^verbatim>\<open>try\<close> block of \<^verbatim>\<open>compare_streams\<close>.\<close>

definition compare_body :: "'w tester \<Rightarrow> string \<Rightarrow> ('w, bool) io" where
  "compare_body t key =
     io_bind (r_xinfo_stream (source t) key) (\<lambda>source_info.
     io_bind (r_xinfo_stream (target t) key) (\<lambda>target_info.
       if si_length source_info \<noteq> si_length target_info then io_return False
       else
         io_bind (r_xrange (source t) key) (\<lambda>source_entries.
         io_bind (r_xrange (target t) key) (\<lambda>target_entries.
           if length source_entries \<noteq> length target_entries then io_return False
           else if entries_differ source_entries target_entries then io_return False
           else if si_first_entry source_info \<noteq> si_first_entry target_info then io_return False
           else if si_last_entry source_info \<noteq> si_last_entry target_info then io_return False
           else io_return True))))"

text \<open>
  \<^verbatim>\<open>compare_streams\<close>: the handler of \<^verbatim>\<open>redis.ResponseError\<close> asks the target again
  when the message says "no such key", and its bare \<^verbatim>\<open>except\<close> answers \<^verbatim>\<open>True\<close>
  whatever that query raises; every other \<^verbatim>\<open>Exception\<close> answers \<^verbatim>\<open>False\<close>.
\<close>

definition compare_streams :: "'w tester \<Rightarrow> string \<Rightarrow> ('w, bool) io" where
  "compare_streams t key w =
     (case compare_body t key w of
        (Inr same, w') \<Rightarrow> (Inr same, w')
      | (Inl (ResponseError msg), w') \<Rightarrow>
          if str_contains ''no such key'' (lower msg) then
            (case r_xinfo_stream (target t) key w' of
               (Inr _, w'') \<Rightarrow> (Inr False, w'')
             | (Inl _, w'') \<Rightarrow> (Inr True, w''))
          else (Inr False, w')
      | (Inl e, w') \<Rightarrow> if is_Exception e then (Inr False, w') else (Inl e, w'))"




text \<open>
  \<^verbatim>\<open>test_trim_minid\<close>: ten entries with the ids \<^verbatim>\<open>1-0\<close> to \<^verbatim>\<open>10-0\<close>, then the
  \<^verbatim>\<open>try\<close> with the raw \<^verbatim>\<open>XTRIM key MINID 5-0\<close>, the pause and the comparison; a
  \<^verbatim>\<open>redis.ResponseError\<close> in it returns \<^verbatim>\<open>True\<close>.
\<close>

definition test_trim_minid :: "'w os \<Rightarrow> 'w tester \<Rightarrow> ('w, bool) io" where
  "test_trim_minid os t =
     (let key = ''test:stream:trim_minid'' in
      io_bind
        (io_each (\<lambda>i. r_xadd (source t) key [(''seq'', str_nat i)] (str_nat (i + 1) @ ''-0'') None)
           [0..<10])
        (\<lambda>_ w.
           case io_bind (r_execute_command (source t) [''XTRIM'', key, ''MINID'', ''5-0'']) (\<lambda>_.
                io_bind (os_sleep os 2000) (\<lambda>_.
                  compare_streams t key)) w of
             (Inr same, w') \<Rightarrow> (Inr same, w')
           | (Inl (ResponseError msg), w') \<Rightarrow> (Inr True, w')
           | (Inl e, w') \<Rightarrow> (Inl e, w')))"







section \<open>Notions for the statements\<close>

text \<open>The outcomes of the records of a verification pass, one for each record, in the
  order of the records.\<close>

fun verify_outcomes :: "'w redis \<Rightarrow> 'w redis \<Rightarrow> test_key list \<Rightarrow> ('w, outcome list) io" where
  "verify_outcomes source_r target_r [] w = (Inr [], w)"
| "verify_outcomes source_r target_r (entry # rest) w =
     (case verify_key source_r target_r entry w of
        (Inl e, w') \<Rightarrow> (Inl e, w')
      | (Inr out, w') \<Rightarrow>
          (case verify_outcomes source_r target_r rest w' of
             (Inl e, w'') \<Rightarrow> (Inl e, w'')
           | (Inr outs, w'') \<Rightarrow> (Inr (out # outs), w'')))"

text \<open>The lines of the failed records, in the order of the records.\<close>

definition fail_lines :: "test_key list \<Rightarrow> outcome list \<Rightarrow> string list" where
  "fail_lines test_keys outs =
     List.map_filter (\<lambda>(entry, out). fail_detail (fst entry) out) (zip test_keys outs)"

text \<open>The operator does not interrupt a command, in whatever world it is called.\<close>

definition uninterrupted :: "('w, 'a) io \<Rightarrow> bool" where
  "uninterrupted m = (\<forall>w. fst (m w) \<noteq> Inl KeyboardInterrupt)"

definition queries_uninterrupted :: "'w redis \<Rightarrow> bool" where
  "queries_uninterrupted r =
     (\<forall>key. uninterrupted (r_exists r key) \<and> uninterrupted (r_type r key)
        \<and> uninterrupted (r_get r key) \<and> uninterrupted (r_hgetall r key)
        \<and> uninterrupted (r_lrange r key 0 (- 1)) \<and> uninterrupted (r_smembers r key)
        \<and> uninterrupted (r_zrange_withscores r key 0 (- 1)))"

text \<open>The reply of a command does not depend on the world it is called in: the store
  behind it is unchanged.\<close>

definition stable_reply :: "('w, 'a) io \<Rightarrow> bool" where
  "stable_reply m = (\<forall>w w'. fst (m w) = fst (m w'))"

definition queries_stable :: "'w redis \<Rightarrow> bool" where
  "queries_stable r =
     (\<forall>key. stable_reply (r_exists r key) \<and> stable_reply (r_type r key)
        \<and> stable_reply (r_get r key) \<and> stable_reply (r_hgetall r key)
        \<and> stable_reply (r_lrange r key 0 (- 1)) \<and> stable_reply (r_smembers r key)
        \<and> stable_reply (r_zrange_withscores r key 0 (- 1)))"

text \<open>The kind label that \<^verbatim>\<open>write_test_data\<close> records for \<^verbatim>\<open>data_type\<close>: the sixth
  variant, the string with the non-ASCII characters, is recorded as a string again.\<close>

definition slot_label :: "nat \<Rightarrow> string" where
  "slot_label data_type =
     (if data_type = 0 then ''string''
      else if data_type = 1 then ''hash''
      else if data_type = 2 then ''list''
      else if data_type = 3 then ''set''
      else if data_type = 4 then ''zset''
      else ''string'')"


section \<open>Concrete stores for the examples\<close>

text \<open>
  A world that is the list of the calls made so far, and stores that answer every
  command with a fixed reply; the examples below change single commands of them.
\<close>

definition logged :: "string \<Rightarrow> 'a \<Rightarrow> (string list, 'a) io" where
  "logged name a w = (Inr a, w @ [name])"

definition refused :: "string \<Rightarrow> exn \<Rightarrow> (string list, 'a) io" where
  "refused name e w = (Inl e, w @ [name])"

definition demo_store :: "string \<Rightarrow> string list redis" where
  "demo_store tag =
     \<lparr> r_ping = logged (tag @ '' PING'') True,
       r_keys = (\<lambda>pattern. logged (tag @ '' KEYS'') []),
       r_delete = (\<lambda>keys. logged (tag @ '' DEL'') 0),
       r_set = (\<lambda>key v ex. logged (tag @ '' SET'') True),
       r_hset = (\<lambda>key mapping. logged (tag @ '' HSET'') 3),
       r_lpush = (\<lambda>key items. logged (tag @ '' LPUSH'') 3),
       r_sadd = (\<lambda>key members. logged (tag @ '' SADD'') 3),
       r_zadd = (\<lambda>key mapping. logged (tag @ '' ZADD'') 3),
       r_exists = (\<lambda>key. logged (tag @ '' EXISTS'') 1),
       r_type = (\<lambda>key. logged (tag @ '' TYPE'') ''string''),
       r_get = (\<lambda>key. logged (tag @ '' GET'') (Some ''v'')),
       r_hgetall = (\<lambda>key. logged (tag @ '' HGETALL'') (fmap_of_list [(''field1'', ''a'')])),
       r_lrange = (\<lambda>key start stop. logged (tag @ '' LRANGE'') [''a'', ''b'']),
       r_smembers = (\<lambda>key. logged (tag @ '' SMEMBERS'') {''a'', ''b''}),
       r_zrange_withscores = (\<lambda>key start stop. logged (tag @ '' ZRANGE'') [(''a'', 1)]),
       r_xinfo_stream = (\<lambda>key. logged (tag @ '' XINFO'')
          \<lparr> si_length = 1, si_first_entry = Some (''1-0'', fmap_of_list [(''seq'', ''0'')]),
            si_last_entry = Some (''1-0'', fmap_of_list [(''seq'', ''0'')]) \<rparr>),
       r_xrange = (\<lambda>key. logged (tag @ '' XRANGE'') [(''1-0'', fmap_of_list [(''seq'', ''0'')])]),
       r_xadd = (\<lambda>key fields entry_id maxlen. logged (tag @ '' XADD'') entry_id),
       r_xtrim = (\<lambda>key maxlen approximate. logged (tag @ '' XTRIM'') 0),
       r_execute_command = (\<lambda>args. logged (tag @ '' '' @ hd args) 0) \<rparr>"

definition demo_os :: "string list os" where
  "demo_os =
     \<lparr> os_time = (\<lambda>w. 1700000000),
       os_sleep = (\<lambda>ms. logged ''sleep'' ()),
       os_input = logged ''input'' ''n'' \<rparr>"

text \<open>Stores whose keys are all streams.\<close>

definition stream_store :: "string \<Rightarrow> string list redis" where
  "stream_store tag = (demo_store tag)\<lparr> r_type := (\<lambda>key. logged (tag @ '' TYPE'') ''stream'') \<rparr>"


text \<open>A target that lacks the key \<^verbatim>\<open>k2\<close> and times out on the key \<^verbatim>\<open>k3\<close>.\<close>

definition patchy_target :: "string list redis" where
  "patchy_target =
     (demo_store ''target'')
       \<lparr> r_exists := (\<lambda>key.
            if key = ''k3'' then refused ''target EXISTS'' (ConnectionError ''timed out'')
            else logged ''target EXISTS'' (if key = ''k2'' then 0 else 1)) \<rparr>"


text \<open>A source that loses its connection at the first \<^verbatim>\<open>ZADD\<close>.\<close>

definition failing_source :: "string list redis" where
  "failing_source =
     (demo_store ''source'')
       \<lparr> r_zadd := (\<lambda>key mapping. refused ''source ZADD'' (ConnectionError ''connection lost'')) \<rparr>"

text \<open>A store without the stream: \<^verbatim>\<open>XINFO STREAM\<close> is answered "no such key".\<close>

definition no_stream_store :: "string \<Rightarrow> string list redis" where
  "no_stream_store tag =
     (demo_store tag)
       \<lparr> r_xinfo_stream := (\<lambda>key. refused (tag @ '' XINFO'') (ResponseError ''no such key'')) \<rparr>"

text \<open>A source that does not know \<^verbatim>\<open>XTRIM ... MINID\<close>.\<close>

definition old_source :: "string list redis" where
  "old_source =
     (demo_store ''source'')
       \<lparr> r_execute_command := (\<lambda>args.
            refused (''source '' @ hd args) (ResponseError ''syntax error'')) \<rparr>"





section \<open>The generator of the test keys\<close>

lemma write_key_entry:
  assumes "write_key os source_r i w = (Inr entry, w')"
  shows "fst entry = TEST_PREFIX @ ''key_'' @ fmt_03d i \<and> fst (snd entry) = slot_label (i mod 6)"
  using assms
  by (auto simp: write_key_def slot_label_def Let_def io_bind_def io_return_def
           split: if_splits prod.splits sum.splits)

lemma write_keys_entries:
  assumes "write_keys os source_r indices acc w = (Inr test_keys, w')"
  shows "\<exists>new. test_keys = acc @ new
           \<and> map fst new = map (\<lambda>i. TEST_PREFIX @ ''key_'' @ fmt_03d i) indices
           \<and> map (\<lambda>entry. fst (snd entry)) new = map (\<lambda>i. slot_label (i mod 6)) indices"
  using assms
proof (induction indices arbitrary: acc w)
  case Nil
  then show ?case by simp
next
  case (Cons i rest)
  from Cons.prems obtain entry w1 w2 where
    1: "write_key os source_r i w = (Inr entry, w1)" and
    2: "write_keys os source_r rest (acc @ [entry]) w2 = (Inr test_keys, w')"
    by (auto split: prod.splits sum.splits)
  from Cons.IH [OF 2] obtain new where
    new: "test_keys = (acc @ [entry]) @ new"
         "map fst new = map (\<lambda>i. TEST_PREFIX @ ''key_'' @ fmt_03d i) rest"
         "map (\<lambda>entry. fst (snd entry)) new = map (\<lambda>i. slot_label (i mod 6)) rest"
    by blast
  show ?case
    using new write_key_entry [OF 1]
    by (intro exI [of _ "entry # new"]) simp
qed

lemma write_keys_append:
  "write_keys os source_r (xs @ ys) acc w =
     (case write_keys os source_r xs acc w of
        (Inl e, w') \<Rightarrow> (Inl e, w')
      | (Inr test_keys, w') \<Rightarrow> write_keys os source_r ys test_keys w')"
  by (induction xs arbitrary: acc w) (auto split: prod.splits sum.splits)

lemma write_n_test_keys_success:
  "write_n_test_keys os source_r n w = (Inr (True, test_keys), w')
     \<longleftrightarrow> write_keys os source_r [0..<n] [] w = (Inr test_keys, w')"
  by (auto simp: write_n_test_keys_def try_except_def io_bind_def io_return_def
           split: prod.splits sum.splits if_splits)

lemma slot_label_kinds: "slot_label d \<in> {''string'', ''hash'', ''list'', ''set'', ''zset''}"
  by (simp add: slot_label_def)

lemma slot_labels_all:
  assumes "5 \<le> n"
  shows "(\<lambda>i. slot_label (i mod 6)) ` {0..<n} = {''string'', ''hash'', ''list'', ''set'', ''zset''}"
proof
  show "(\<lambda>i. slot_label (i mod 6)) ` {0..<n} \<subseteq> {''string'', ''hash'', ''list'', ''set'', ''zset''}"
    using slot_label_kinds by blast
  have "slot_label (0 mod 6) = ''string''" "slot_label (1 mod 6) = ''hash''"
       "slot_label (2 mod 6) = ''list''" "slot_label (3 mod 6) = ''set''"
       "slot_label (4 mod 6) = ''zset''"
    by (simp_all add: slot_label_def)
  moreover have "0 \<in> {0..<n}" "1 \<in> {0..<n}" "2 \<in> {0..<n}" "3 \<in> {0..<n}" "4 \<in> {0..<n}"
    using assms by simp_all
  ultimately show "{''string'', ''hash'', ''list'', ''set'', ''zset''}
                     \<subseteq> (\<lambda>i. slot_label (i mod 6)) ` {0..<n}"
    by (metis (no_types, lifting) empty_subsetI image_eqI insert_subset)
qed

text \<open>
  Claim C1, as the code has it. For every count \<open>n\<close> and every index \<open>i < n\<close>, the
  record of index \<open>i\<close> has the key \<^verbatim>\<open>rdb_phase_test:key_\<close> with the index, and its
  kind label is that of the variant \<open>i mod 6\<close>: string, hash, list, set, zset, and
  string again for the sixth variant. No record of kind stream is written; from five
  records on, the kinds written are exactly string, hash, list, set and zset.
\<close>

theorem generator_round_robin:
  assumes "write_n_test_keys os source_r n w = (Inr (True, test_keys), w')"
  shows "length test_keys = n
       \<and> (\<forall>i<n. fst (test_keys ! i) = TEST_PREFIX @ ''key_'' @ fmt_03d i
                \<and> fst (snd (test_keys ! i)) = slot_label (i mod 6))
       \<and> ''stream'' \<notin> set (map (\<lambda>entry. fst (snd entry)) test_keys)
       \<and> (5 \<le> n \<longrightarrow> set (map (\<lambda>entry. fst (snd entry)) test_keys) = {''string'', ''hash'', ''list'', ''set'', ''zset''})"
proof -
  from assms have "write_keys os source_r [0..<n] [] w = (Inr test_keys, w')"
    by (simp add: write_n_test_keys_success)
  from write_keys_entries [OF this]
  have keys: "map fst test_keys = map (\<lambda>i. TEST_PREFIX @ ''key_'' @ fmt_03d i) [0..<n]"
   and kinds: "map (\<lambda>entry. fst (snd entry)) test_keys = map (\<lambda>i. slot_label (i mod 6)) [0..<n]"
    by auto
  from keys have len: "length test_keys = n"
    by (metis length_map length_upt minus_nat.diff_0)
  have each: "\<forall>i<n. fst (test_keys ! i) = TEST_PREFIX @ ''key_'' @ fmt_03d i
                \<and> fst (snd (test_keys ! i)) = slot_label (i mod 6)"
  proof (intro allI impI)
    fix i assume i: "i < n"
    have "fst (test_keys ! i) = map fst test_keys ! i"
      using i len by simp
    moreover have "fst (snd (test_keys ! i)) = map (\<lambda>entry. fst (snd entry)) test_keys ! i"
      using i len by simp
    ultimately show "fst (test_keys ! i) = TEST_PREFIX @ ''key_'' @ fmt_03d i
                \<and> fst (snd (test_keys ! i)) = slot_label (i mod 6)"
      using i by (simp add: keys kinds)
  qed
  have set_kinds: "set (map (\<lambda>entry. fst (snd entry)) test_keys) = (\<lambda>i. slot_label (i mod 6)) ` {0..<n}"
    unfolding kinds by simp
  have no_stream: "''stream'' \<notin> set (map (\<lambda>entry. fst (snd entry)) test_keys)"
  proof -
    have "\<And>d. ''stream'' \<noteq> slot_label d"
      by (simp add: slot_label_def)
    then show ?thesis
      unfolding set_kinds by (simp add: image_iff)
  qed
  have all: "5 \<le> n \<longrightarrow> set (map (\<lambda>entry. fst (snd entry)) test_keys) = {''string'', ''hash'', ''list'', ''set'', ''zset''}"
    unfolding set_kinds using slot_labels_all by blast
  from len each no_stream all show ?thesis by (intro conjI)
qed

lemma demo_write_key:
  "\<exists>entry w'. write_key demo_os (demo_store tag) i w = (Inr entry, w')"
  by (simp add: write_key_def demo_store_def demo_os_def logged_def io_bind_def io_return_def Let_def)

lemma demo_write_keys:
  "\<exists>test_keys w'. write_keys demo_os (demo_store tag) indices acc w = (Inr test_keys, w')"
proof (induction indices arbitrary: acc w)
  case Nil
  show ?case by simp
next
  case (Cons i rest)
  obtain entry w1 where 1: "write_key demo_os (demo_store tag) i w = (Inr entry, w1)"
    using demo_write_key by blast
  have 2: "os_sleep demo_os 100 w1 = (Inr (), w1 @ [''sleep''])"
    by (simp add: demo_os_def logged_def)
  show ?case
    using Cons.IH [of "acc @ [entry]" "w1 @ [''sleep'']"] by (simp add: 1 2)
qed

lemma demo_write_test_data:
  "\<exists>test_keys w'. write_test_data demo_os (demo_store tag) w = (Inr (True, test_keys), w')"
  using demo_write_keys [of tag "[0..<TEST_KEYS_COUNT]" "[]" w]
  by (simp add: write_test_data_def write_n_test_keys_success)

lemma twenty_labels:
  "map (\<lambda>i. slot_label (i mod 6)) [0..<20] =
     [''string'', ''hash'', ''list'', ''set'', ''zset'', ''string'',
      ''string'', ''hash'', ''list'', ''set'', ''zset'', ''string'',
      ''string'', ''hash'', ''list'', ''set'', ''zset'', ''string'',
      ''string'', ''hash'']"
  by code_simp

theorem generator_round_robin_witness:
  "\<exists>test_keys w'.
     write_n_test_keys demo_os (demo_store ''source'') 20 [] = (Inr (True, test_keys), w')
     \<and> length test_keys = 20
     \<and> fst (test_keys ! 5) = ''rdb_phase_test:key_005'' \<and> fst (snd (test_keys ! 5)) = ''string''
     \<and> ''stream'' \<notin> set (map (\<lambda>entry. fst (snd entry)) test_keys)
     \<and> set (map (\<lambda>entry. fst (snd entry)) test_keys) = {''string'', ''hash'', ''list'', ''set'', ''zset''}"
proof -
  obtain test_keys w' where
    run: "write_n_test_keys demo_os (demo_store ''source'') 20 [] = (Inr (True, test_keys), w')"
    using demo_write_test_data [of "''source''" "[]"]
    by (auto simp: write_test_data_def TEST_KEYS_COUNT_def)
  have name: "TEST_PREFIX @ ''key_'' @ fmt_03d 5 = ''rdb_phase_test:key_005''"
    by code_simp
  have label: "slot_label (5 mod 6) = ''string''"
    by (simp add: slot_label_def)
  note facts = generator_round_robin [OF run]
  note len = facts [THEN conjunct1]
  note each = facts [THEN conjunct2, THEN conjunct1, rule_format]
  note none = facts [THEN conjunct2, THEN conjunct2, THEN conjunct1]
  note enough = facts [THEN conjunct2, THEN conjunct2, THEN conjunct2, rule_format]
  have five: "(5::nat) < 20" and twenty: "(5::nat) \<le> 20"
    by simp_all
  have fifth:
    "fst (test_keys ! 5) = ''rdb_phase_test:key_005'' \<and> fst (snd (test_keys ! 5)) = ''string''"
    using each [OF five] unfolding name label .
  note all = enough [OF twenty]
  from len fifth none all
  have props: "length test_keys = 20
     \<and> fst (test_keys ! 5) = ''rdb_phase_test:key_005'' \<and> fst (snd (test_keys ! 5)) = ''string''
     \<and> ''stream'' \<notin> set (map (\<lambda>entry. fst (snd entry)) test_keys)
     \<and> set (map (\<lambda>entry. fst (snd entry)) test_keys) = {''string'', ''hash'', ''list'', ''set'', ''zset''}"
    by (intro conjI conjunct1 [OF fifth] conjunct2 [OF fifth])
  show ?thesis
    by (rule exI [of _ test_keys], rule exI [of _ w'], rule conjI [OF run props])
qed

text \<open>
  Against Claim C1 as stated: with the twenty records of \<^verbatim>\<open>TEST_KEYS_COUNT\<close>, written
  to a source that accepts every write, the record of index 5 is a string and none of
  the twenty kind labels is a stream.
\<close>

theorem generator_writes_no_stream:
  "\<exists>test_keys w'.
     write_test_data demo_os (demo_store ''source'') [] = (Inr (True, test_keys), w')
     \<and> map (\<lambda>entry. fst (snd entry)) test_keys =
         [''string'', ''hash'', ''list'', ''set'', ''zset'', ''string'',
          ''string'', ''hash'', ''list'', ''set'', ''zset'', ''string'',
          ''string'', ''hash'', ''list'', ''set'', ''zset'', ''string'',
          ''string'', ''hash'']
     \<and> ''stream'' \<notin> set (map (\<lambda>entry. fst (snd entry)) test_keys)"
proof -
  obtain test_keys w' where
    run: "write_test_data demo_os (demo_store ''source'') [] = (Inr (True, test_keys), w')"
    using demo_write_test_data by blast
  then have "write_keys demo_os (demo_store ''source'') [0..<20] [] [] = (Inr test_keys, w')"
    by (simp add: write_test_data_def TEST_KEYS_COUNT_def write_n_test_keys_success)
  from write_keys_entries [OF this]
  have kinds: "map (\<lambda>entry. fst (snd entry)) test_keys = map (\<lambda>i. slot_label (i mod 6)) [0..<20]"
    by auto
  have labels: "map (\<lambda>entry. fst (snd entry)) test_keys =
         [''string'', ''hash'', ''list'', ''set'', ''zset'', ''string'',
          ''string'', ''hash'', ''list'', ''set'', ''zset'', ''string'',
          ''string'', ''hash'', ''list'', ''set'', ''zset'', ''string'',
          ''string'', ''hash'']"
    unfolding kinds by (rule twenty_labels)
  have none: "''stream'' \<notin> set (map (\<lambda>entry. fst (snd entry)) test_keys)"
    unfolding labels by simp
  from run labels none show ?thesis
    by (intro exI conjI) assumption+
qed

section \<open>Verification of one key\<close>

lemma check_key_other_kind:
  assumes "key_type \<notin> {''string'', ''hash'', ''list'', ''set'', ''zset''}"
      and "r_exists target_r key w = (Inr found, w1)" and "found \<noteq> 0"
      and "r_type source_r key w1 = (Inr src_type, w2)"
      and "r_type target_r key w2 = (Inr dst_type, w3)"
      and "src_type = dst_type"
  shows "check_key source_r target_r key key_type w = (Inr Verified, w3)"
  using assms by (simp add: check_key_def io_bind_def io_return_def)

text \<open>
  Claim C9. A record whose kind label is none of "string", "hash", "list", "set",
  "zset" (a stream, say), whose key exists on the target and whose two type labels are
  equal, is counted as a success, and the world after it is the world after the three
  queries EXISTS, TYPE, TYPE: no value is read or compared.
\<close>

theorem unknown_kind_counts_as_success:
  assumes "key_type \<notin> {''string'', ''hash'', ''list'', ''set'', ''zset''}"
      and "r_exists target_r key w = (Inr found, w1)" and "found \<noteq> 0"
      and "r_type source_r key w1 = (Inr src_type, w2)"
      and "r_type target_r key w2 = (Inr dst_type, w3)"
      and "src_type = dst_type"
  shows "verify_key source_r target_r (key, key_type, expected_value) w = (Inr Verified, w3)
       \<and> verify_test_data source_r target_r [(key, key_type, expected_value)] w
           = (Inr (1, 0, []), w3)"
  using check_key_other_kind [OF assms]
  by (simp add: verify_test_data_def verify_key_def try_except_def)

theorem unknown_kind_counts_as_success_witness:
  "''stream'' \<notin> {''string'', ''hash'', ''list'', ''set'', ''zset''}
   \<and> verify_key (stream_store ''source'') (stream_store ''target'') (''events'', ''stream'', None) []
       = (Inr Verified, [''target EXISTS'', ''source TYPE'', ''target TYPE''])
   \<and> verify_test_data (stream_store ''source'') (stream_store ''target'')
         [(''events'', ''stream'', None)] []
       = (Inr (1, 0, []), [''target EXISTS'', ''source TYPE'', ''target TYPE''])"
  using unknown_kind_counts_as_success
    [of "''stream''" "stream_store ''target''" "''events''" "[]" 1 "[''target EXISTS'']"
        "stream_store ''source''" "''stream''" "[''target EXISTS'', ''source TYPE'']" "''stream''"
        "[''target EXISTS'', ''source TYPE'', ''target TYPE'']" None]
  by (simp add: stream_store_def demo_store_def logged_def)








section \<open>The verification pass\<close>

lemma is_Exception_iff: "is_Exception e \<longleftrightarrow> e \<noteq> KeyboardInterrupt"
  by (cases e) simp_all

lemma uninterrupted_return: "uninterrupted (io_return a)"
  by (simp add: uninterrupted_def io_return_def)

lemma uninterrupted_bind:
  assumes "uninterrupted m" and "\<And>a. uninterrupted (f a)"
  shows "uninterrupted (io_bind m f)"
  using assms unfolding uninterrupted_def io_bind_def
  by (auto split: prod.splits sum.splits) (metis fst_conv)+

lemma uninterrupted_check_key:
  assumes "queries_uninterrupted source_r" and "queries_uninterrupted target_r"
  shows "uninterrupted (check_key source_r target_r key key_type)"
  using assms unfolding check_key_def queries_uninterrupted_def
  by (intro uninterrupted_bind) (simp_all add: uninterrupted_return uninterrupted_bind)

lemma try_except_total:
  assumes "uninterrupted body" and "\<And>e. \<exists>a. \<forall>w. handler e w = (Inr (a::'a), w)"
  shows "\<exists>a w'. try_except body handler w = (Inr a, w')"
proof (cases "body w")
  case (Pair r w')
  show ?thesis
  proof (cases r)
    case (Inl e)
    with Pair assms(1) have "is_Exception e"
      by (metis fst_conv is_Exception_iff uninterrupted_def)
    with Inl Pair assms(2) [of e] show ?thesis
      by (auto simp: try_except_def)
  next
    case (Inr a)
    with Pair show ?thesis by (simp add: try_except_def)
  qed
qed

lemma verify_key_total:
  assumes "queries_uninterrupted source_r" and "queries_uninterrupted target_r"
  shows "\<exists>out w'. verify_key source_r target_r entry w = (Inr out, w')"
proof -
  obtain key key_type expected_value where e: "entry = (key, key_type, expected_value)"
    by (cases entry) auto
  show ?thesis
    unfolding e verify_key_def prod.case
    by (rule try_except_total [OF uninterrupted_check_key [OF assms]])
       (simp add: io_return_def)
qed

lemma verify_outcomes_total:
  assumes "queries_uninterrupted source_r" and "queries_uninterrupted target_r"
  shows "\<exists>outs w'. verify_outcomes source_r target_r test_keys w = (Inr outs, w')"
proof (induction test_keys arbitrary: w)
  case Nil
  show ?case by simp
next
  case (Cons entry rest)
  obtain out w1 where 1: "verify_key source_r target_r entry w = (Inr out, w1)"
    using verify_key_total [OF assms] by blast
  obtain outs w2 where 2: "verify_outcomes source_r target_r rest w1 = (Inr outs, w2)"
    using Cons.IH by blast
  show ?case by (simp add: 1 2)
qed

lemma verify_outcomes_length:
  "verify_outcomes source_r target_r test_keys w = (Inr outs, w') \<Longrightarrow> length outs = length test_keys"
  by (induction test_keys arbitrary: w outs)
     (auto split: prod.splits sum.splits)

lemma verify_loop_outcomes:
  "verify_loop source_r target_r test_keys success_count fail_count fail_details w =
     (case verify_outcomes source_r target_r test_keys w of
        (Inl e, w') \<Rightarrow> (Inl e, w')
      | (Inr outs, w') \<Rightarrow>
          (Inr (success_count + length (filter (\<lambda>out. out = Verified) outs),
                fail_count + length (filter (\<lambda>out. out \<noteq> Verified) outs),
                fail_details @ fail_lines test_keys outs), w'))"
proof (induction test_keys arbitrary: success_count fail_count fail_details w)
  case Nil
  show ?case by (simp add: fail_lines_def)
next
  case (Cons entry rest)
  show ?case
  proof (cases "verify_key source_r target_r entry w")
    case (Pair r w1)
    show ?thesis
    proof (cases r)
      case (Inl e)
      with Pair show ?thesis by simp
    next
      case (Inr out)
      show ?thesis
        using Pair Inr
        by (cases out)
           (auto simp: Cons.IH fail_lines_def split: prod.splits sum.splits)
    qed
  qed
qed

lemma fail_lines_length:
  "length outs = length test_keys \<Longrightarrow>
     length (fail_lines test_keys outs) = length (filter (\<lambda>out. out \<noteq> Verified) outs)"
proof (induction test_keys arbitrary: outs)
  case Nil
  then show ?case by (simp add: fail_lines_def)
next
  case (Cons entry rest)
  then obtain out outs' where o: "outs = out # outs'" by (cases outs) auto
  with Cons have "length (fail_lines rest outs') = length (filter (\<lambda>out. out \<noteq> Verified) outs')"
    by simp
  then show ?case
    unfolding o by (cases out) (simp_all add: fail_lines_def)
qed


text \<open>
  Claim C4. Whatever the stores answer or raise, as long as the operator does not
  interrupt a query, the verification pass returns after every record: there is one
  outcome for each record, in the order of the records, the two counts add up to the
  number of records, and the failure lines are those of the failed records, one line
  for each, in the order of the records.
\<close>

theorem verification_is_exhaustive:
  assumes "queries_uninterrupted source_r" and "queries_uninterrupted target_r"
  shows "\<exists>outs success_count fail_count fail_details w'.
           verify_test_data source_r target_r test_keys w
             = (Inr (success_count, fail_count, fail_details), w')
         \<and> verify_outcomes source_r target_r test_keys w = (Inr outs, w')
         \<and> length outs = length test_keys
         \<and> success_count = length (filter (\<lambda>out. out = Verified) outs)
         \<and> fail_count = length (filter (\<lambda>out. out \<noteq> Verified) outs)
         \<and> success_count + fail_count = length test_keys
         \<and> fail_details = fail_lines test_keys outs
         \<and> length fail_details = fail_count"
proof -
  obtain outs w' where outs: "verify_outcomes source_r target_r test_keys w = (Inr outs, w')"
    using verify_outcomes_total [OF assms] by blast
  have len: "length outs = length test_keys"
    using outs by (rule verify_outcomes_length)
  have split: "length (filter (\<lambda>out. out = Verified) outs)
                 + length (filter (\<lambda>out. out \<noteq> Verified) outs) = length outs"
    using sum_length_filter_compl [of "\<lambda>out. out = Verified" outs] by simp
  show ?thesis
    using outs len split fail_lines_length [OF len]
    by (simp add: verify_test_data_def verify_loop_outcomes)
qed

theorem verification_is_exhaustive_witness:
  "queries_uninterrupted (demo_store ''source'') \<and> queries_uninterrupted patchy_target
   \<and> (\<exists>success_count fail_count fail_details w'.
         verify_test_data (demo_store ''source'') patchy_target
             [(''k1'', ''string'', Some ''v''), (''k2'', ''hash'', None), (''k3'', ''list'', None),
              (''k2'', ''hash'', None), (''k4'', ''set'', None)] []
           = (Inr (success_count, fail_count, fail_details), w')
       \<and> success_count + fail_count = 5 \<and> success_count = 2 \<and> fail_count = 3
       \<and> fail_details = [''k2: Missing in target'', ''k3: Verification error - timed out'',
                          ''k2: Missing in target''])"
proof -
  define test_keys :: "test_key list" where
    "test_keys = [(''k1'', ''string'', Some ''v''), (''k2'', ''hash'', None), (''k3'', ''list'', None),
                  (''k2'', ''hash'', None), (''k4'', ''set'', None)]"
  have s: "queries_uninterrupted (demo_store ''source'')"
    by (simp add: queries_uninterrupted_def uninterrupted_def demo_store_def logged_def)
  have t: "queries_uninterrupted patchy_target"
    by (simp add: queries_uninterrupted_def uninterrupted_def patchy_target_def demo_store_def
          logged_def refused_def)
  have run: "fst (verify_test_data (demo_store ''source'') patchy_target test_keys [])
           = Inr (2, 3, [''k2: Missing in target'', ''k3: Verification error - timed out'',
                          ''k2: Missing in target''])"
    unfolding test_keys_def
    by (simp add: verify_test_data_def verify_key_def check_key_def try_except_def io_bind_def
          io_return_def patchy_target_def demo_store_def logged_def refused_def)
  have "\<exists>success_count fail_count fail_details w'.
         verify_test_data (demo_store ''source'') patchy_target test_keys []
           = (Inr (success_count, fail_count, fail_details), w')
       \<and> success_count + fail_count = 5 \<and> success_count = 2 \<and> fail_count = 3
       \<and> fail_details = [''k2: Missing in target'', ''k3: Verification error - timed out'',
                          ''k2: Missing in target'']"
    using verification_is_exhaustive [OF s t, of test_keys "[]"]
  proof (elim exE conjE)
    fix outs :: "outcome list" and success_count fail_count fail_details w'
    assume r: "verify_test_data (demo_store ''source'') patchy_target test_keys []
                 = (Inr (success_count, fail_count, fail_details), w')"
       and l: "length outs = length test_keys"
    from r run have c: "success_count = 2" "fail_count = 3"
      "fail_details = [''k2: Missing in target'', ''k3: Verification error - timed out'',
                        ''k2: Missing in target'']"
      by simp_all
    from c have l5: "success_count + fail_count = 5"
      by simp
    show ?thesis
      using r l5 c by (intro exI conjI) assumption+
  qed
  with s t show ?thesis
    unfolding test_keys_def by (intro conjI) assumption+
qed

section \<open>Repeating the verification pass\<close>

lemma stable_return: "stable_reply (io_return a)"
  by (simp add: stable_reply_def io_return_def)

lemma fst_io_bind:
  "fst (io_bind m f w) = (case fst (m w) of Inl e \<Rightarrow> Inl e | Inr a \<Rightarrow> fst (f a (snd (m w))))"
  by (simp add: io_bind_def split: prod.splits sum.splits)

lemma stable_bind:
  assumes "stable_reply m" and "\<And>a. stable_reply (f a)"
  shows "stable_reply (io_bind m f)"
  unfolding stable_reply_def
proof (intro allI)
  fix w w'
  have m: "fst (m w) = fst (m w')"
    using assms(1) by (simp add: stable_reply_def)
  have f: "\<And>a v v'. fst (f a v) = fst (f a v')"
    using assms(2) by (simp add: stable_reply_def)
  show "fst (io_bind m f w) = fst (io_bind m f w')"
    unfolding fst_io_bind m
    by (cases "fst (m w')") (simp_all add: f [of _ "snd (m w)" "snd (m w')"])
qed

lemma fst_try_except:
  "fst (try_except body handler w) =
     (case fst (body w) of
        Inl e \<Rightarrow> if is_Exception e then fst (handler e (snd (body w))) else Inl e
      | Inr a \<Rightarrow> Inr a)"
  by (simp add: try_except_def split: prod.splits sum.splits)

lemma stable_try_except:
  assumes "stable_reply body" and "\<And>e. stable_reply (handler e)"
  shows "stable_reply (try_except body handler)"
  unfolding stable_reply_def
proof (intro allI)
  fix w w'
  have b: "fst (body w) = fst (body w')"
    using assms(1) by (simp add: stable_reply_def)
  have h: "\<And>e v v'. fst (handler e v) = fst (handler e v')"
    using assms(2) by (simp add: stable_reply_def)
  show "fst (try_except body handler w) = fst (try_except body handler w')"
    unfolding fst_try_except b
    by (cases "fst (body w')") (simp_all add: h [of _ "snd (body w)" "snd (body w')"])
qed

lemma stable_check_key:
  assumes "queries_stable source_r" and "queries_stable target_r"
  shows "stable_reply (check_key source_r target_r key key_type)"
  using assms unfolding check_key_def queries_stable_def
  by (intro stable_bind) (simp_all add: stable_return stable_bind)

lemma stable_verify_key:
  assumes "queries_stable source_r" and "queries_stable target_r"
  shows "stable_reply (verify_key source_r target_r entry)"
proof -
  obtain key key_type expected_value where e: "entry = (key, key_type, expected_value)"
    by (cases entry) auto
  show ?thesis
    unfolding e verify_key_def prod.case
    by (intro stable_try_except stable_check_key assms stable_return)
qed

lemma stable_verify_loop:
  assumes "queries_stable source_r" and "queries_stable target_r"
  shows "fst (verify_loop source_r target_r test_keys success_count fail_count fail_details w)
       = fst (verify_loop source_r target_r test_keys success_count fail_count fail_details w')"
proof (induction test_keys arbitrary: success_count fail_count fail_details w w')
  case Nil
  show ?case by simp
next
  case (Cons entry rest)
  have k: "fst (verify_key source_r target_r entry w) = fst (verify_key source_r target_r entry w')"
    using stable_verify_key [OF assms, of entry] by (simp add: stable_reply_def)
  obtain r v where 1: "verify_key source_r target_r entry w = (r, v)"
    by (cases "verify_key source_r target_r entry w")
  obtain r' v' where 2: "verify_key source_r target_r entry w' = (r', v')"
    by (cases "verify_key source_r target_r entry w'")
  from k 1 2 have same: "r' = r" by simp
  show ?case
  proof (cases r)
    case (Inl e)
    with 1 2 same show ?thesis by simp
  next
    case (Inr out)
    show ?thesis
    proof (cases "fail_detail (fst entry) out")
      case None
      with 1 2 same Inr show ?thesis
        using Cons.IH [of "success_count + 1" fail_count fail_details v v'] by simp
    next
      case (Some line)
      with 1 2 same Inr show ?thesis
        using Cons.IH [of success_count "fail_count + 1" "fail_details @ [line]" v v'] by simp
    qed
  qed
qed

text \<open>
  Claim C8. Against an unchanged pair of stores (their replies to the queries do not
  depend on the moment of the query), a second verification pass, run after the first
  one, returns what the first one returned: the same two counts and the same failure
  lines.
\<close>

theorem verification_is_repeatable:
  assumes "queries_stable source_r" and "queries_stable target_r"
      and "verify_test_data source_r target_r test_keys w = (first, w')"
      and "verify_test_data source_r target_r test_keys w' = (second, w'')"
  shows "second = first"
  using stable_verify_loop [OF assms(1,2), of test_keys 0 0 "[]" w w'] assms(3,4)
  by (simp add: verify_test_data_def)

theorem verification_is_repeatable_witness:
  "queries_stable (demo_store ''source'') \<and> queries_stable patchy_target
   \<and> fst (verify_test_data (demo_store ''source'') patchy_target
            [(''k1'', ''string'', Some ''v''), (''k2'', ''hash'', None), (''k3'', ''list'', None)]
            (snd (verify_test_data (demo_store ''source'') patchy_target
                    [(''k1'', ''string'', Some ''v''), (''k2'', ''hash'', None),
                     (''k3'', ''list'', None)] [])))
     = fst (verify_test_data (demo_store ''source'') patchy_target
              [(''k1'', ''string'', Some ''v''), (''k2'', ''hash'', None), (''k3'', ''list'', None)] [])
   \<and> fst (verify_test_data (demo_store ''source'') patchy_target
              [(''k1'', ''string'', Some ''v''), (''k2'', ''hash'', None), (''k3'', ''list'', None)] [])
     = Inr (1, 2, [''k2: Missing in target'', ''k3: Verification error - timed out''])"
proof -
  define test_keys :: "test_key list" where
    "test_keys = [(''k1'', ''string'', Some ''v''), (''k2'', ''hash'', None), (''k3'', ''list'', None)]"
  have s: "queries_stable (demo_store ''source'')"
    by (simp add: queries_stable_def stable_reply_def demo_store_def logged_def)
  have t: "queries_stable patchy_target"
    by (simp add: queries_stable_def stable_reply_def patchy_target_def demo_store_def
          logged_def refused_def)
  have twice: "fst (verify_test_data (demo_store ''source'') patchy_target test_keys
                  (snd (verify_test_data (demo_store ''source'') patchy_target test_keys [])))
             = fst (verify_test_data (demo_store ''source'') patchy_target test_keys [])"
    by (rule verification_is_repeatable [OF s t, of test_keys "[]"
          "fst (verify_test_data (demo_store ''source'') patchy_target test_keys [])"
          "snd (verify_test_data (demo_store ''source'') patchy_target test_keys [])"
          _ "snd (verify_test_data (demo_store ''source'') patchy_target test_keys
                (snd (verify_test_data (demo_store ''source'') patchy_target test_keys [])))"])
       simp_all
  have run: "fst (verify_test_data (demo_store ''source'') patchy_target test_keys [])
           = Inr (1, 2, [''k2: Missing in target'', ''k3: Verification error - timed out''])"
    unfolding test_keys_def
    by (simp add: verify_test_data_def verify_key_def check_key_def try_except_def io_bind_def
          io_return_def patchy_target_def demo_store_def logged_def refused_def)
  from s t twice run show ?thesis
    unfolding test_keys_def by (intro conjI) assumption+
qed

section \<open>The test flow of the RDB-phase script\<close>

lemma write_keys_fails_at:
  assumes "i < n"
      and "write_keys os source_r [0..<i] [] w = (Inr written, wi)"
      and "write_key os source_r i wi = (Inl e, w_end)"
  shows "write_keys os source_r [0..<n] [] w = (Inl e, w_end)"
proof -
  have "[0..<n] = [0..<i] @ i # [Suc i..<n]"
    using assms(1) by (metis le0 upt_add_eq_append upt_conv_Cons le_add_diff_inverse less_imp_le_nat add_0)
  then show ?thesis
    using assms(2,3) by (simp add: write_keys_append)
qed

text \<open>
  Claim C7. When the writes of the indices below \<open>i\<close> succeed and the write of index
  \<open>i\<close> raises an exception, \<^verbatim>\<open>write_test_data\<close> returns \<^verbatim>\<open>(False, [])\<close> in the
  world that the failed write left (nothing is written after it), and the test flow of
  \<^verbatim>\<open>main\<close> ends there with \<^verbatim>\<open>sys.exit(1)\<close>: no store is queried for verification.
\<close>

theorem generation_fails_fast:
  assumes "i < TEST_KEYS_COUNT"
      and "write_keys os source_r [0..<i] [] w = (Inr written, wi)"
      and "write_key os source_r i wi = (Inl e, w_end)"
      and "is_Exception e"
      and "wait_for_user_start os w0 = (Inr u, w)"
  shows "write_test_data os source_r w = (Inr (False, []), w_end)
       \<and> test_flow os source_r target_r w0 = (Exit 1, w_end)"
proof -
  have loop: "write_keys os source_r [0..<TEST_KEYS_COUNT] [] w = (Inl e, w_end)"
    using assms(1-3) by (rule write_keys_fails_at)
  have gen: "write_test_data os source_r w = (Inr (False, []), w_end)"
    using loop assms(4)
    by (simp add: write_test_data_def write_n_test_keys_def try_except_def io_bind_def io_return_def)
  have "test_flow os source_r target_r w0 = (Exit 1, w_end)"
    using assms(5) gen
    by (simp add: test_flow_def proc_bind_def call_def sys_exit_def)
  with gen show ?thesis by (intro conjI)
qed

lemma four_indices: "[0..<4] = [0, 1, 2, 3]"
  by code_simp

theorem generation_fails_fast_witness:
  "write_test_data demo_os failing_source [''input'']
     = (Inr (False, []),
        [''input'', ''source SET'', ''sleep'', ''source HSET'', ''sleep'', ''source LPUSH'', ''sleep'',
         ''source SADD'', ''sleep'', ''source ZADD''])
   \<and> test_flow demo_os failing_source (demo_store ''target'') []
     = (Exit 1,
        [''input'', ''source SET'', ''sleep'', ''source HSET'', ''sleep'', ''source LPUSH'', ''sleep'',
         ''source SADD'', ''sleep'', ''source ZADD''])"
proof -
  have four: "(4::nat) < TEST_KEYS_COUNT"
    by (simp add: TEST_KEYS_COUNT_def)
  have before: "\<exists>written. write_keys demo_os failing_source [0..<4] [] [''input'']
       = (Inr written,
          [''input'', ''source SET'', ''sleep'', ''source HSET'', ''sleep'', ''source LPUSH'', ''sleep'',
           ''source SADD'', ''sleep''])"
    unfolding four_indices
    by (simp add: write_key_def failing_source_def demo_store_def demo_os_def logged_def
          io_bind_def io_return_def Let_def)
  then obtain written where written:
    "write_keys demo_os failing_source [0..<4] [] [''input'']
       = (Inr written,
          [''input'', ''source SET'', ''sleep'', ''source HSET'', ''sleep'', ''source LPUSH'', ''sleep'',
           ''source SADD'', ''sleep''])" ..
  have fifth: "write_key demo_os failing_source 4
          [''input'', ''source SET'', ''sleep'', ''source HSET'', ''sleep'', ''source LPUSH'', ''sleep'',
           ''source SADD'', ''sleep'']
       = (Inl (ConnectionError ''connection lost''),
          [''input'', ''source SET'', ''sleep'', ''source HSET'', ''sleep'', ''source LPUSH'', ''sleep'',
           ''source SADD'', ''sleep'', ''source ZADD''])"
    by (simp add: write_key_def failing_source_def demo_store_def demo_os_def refused_def
          io_bind_def io_return_def Let_def)
  have exn: "is_Exception (ConnectionError ''connection lost'')"
    by simp
  have prompt: "wait_for_user_start demo_os [] = (Inr (), [''input''])"
    by (simp add: wait_for_user_start_def demo_os_def logged_def io_bind_def io_return_def)
  show ?thesis
    by (rule generation_fails_fast [OF four written fifth exn prompt])
qed

section \<open>The results summary\<close>







section \<open>The exit status\<close>































section \<open>Comparing streams\<close>

lemma compare_streams_both_absent:
  assumes "r_xinfo_stream (source t) key w = (Inl (ResponseError msg), w1)"
      and "str_contains ''no such key'' (lower msg)"
      and "r_xinfo_stream (target t) key w1 = (Inl e, w2)"
  shows "compare_streams t key w = (Inr True, w2)"
  using assms by (simp add: compare_streams_def compare_body_def io_bind_def)

lemma compare_streams_target_absent:
  assumes "r_xinfo_stream (source t) key w = (Inr source_info, w1)"
      and "r_xinfo_stream (target t) key w1 = (Inl (ResponseError msg), w2)"
      and "str_contains ''no such key'' (lower msg)"
      and "r_xinfo_stream (target t) key w2 = (Inl e, w3)"
  shows "compare_streams t key w = (Inr True, w3)"
  using assms by (simp add: compare_streams_def compare_body_def io_bind_def)

lemma no_such_key: "str_contains ''no such key'' (lower ''no such key'')"
  by code_simp

text \<open>
  Claim C3. A stream that neither store has compares as equal. A stream that the source
  has and the target has not compares as equal too: the "no such key" of the target
  reaches the handler written for a missing source stream, which asks the target again
  and, at its second "no such key", answers \<^verbatim>\<open>True\<close>.
\<close>

theorem compare_streams_absent_on_target:
  "compare_streams \<lparr> source = no_stream_store ''source'', target = no_stream_store ''target'' \<rparr>
       ''test:stream:basic'' []
     = (Inr True, [''source XINFO'', ''target XINFO''])
   \<and> fst (r_xinfo_stream (demo_store ''source'') ''test:stream:basic'' [])
     = Inr \<lparr> si_length = 1, si_first_entry = Some (''1-0'', fmap_of_list [(''seq'', ''0'')]),
             si_last_entry = Some (''1-0'', fmap_of_list [(''seq'', ''0'')]) \<rparr>
   \<and> fst (r_xinfo_stream (no_stream_store ''target'') ''test:stream:basic'' [''source XINFO''])
     = Inl (ResponseError ''no such key'')
   \<and> compare_streams \<lparr> source = demo_store ''source'', target = no_stream_store ''target'' \<rparr>
       ''test:stream:basic'' []
     = (Inr True, [''source XINFO'', ''target XINFO'', ''target XINFO''])"
proof (intro conjI)
  show "compare_streams \<lparr> source = no_stream_store ''source'', target = no_stream_store ''target'' \<rparr>
       ''test:stream:basic'' []
     = (Inr True, [''source XINFO'', ''target XINFO''])"
    by (rule compare_streams_both_absent [OF _ no_such_key])
       (simp_all add: no_stream_store_def demo_store_def refused_def)
  show "compare_streams \<lparr> source = demo_store ''source'', target = no_stream_store ''target'' \<rparr>
       ''test:stream:basic'' []
     = (Inr True, [''source XINFO'', ''target XINFO'', ''target XINFO''])"
    by (rule compare_streams_target_absent [OF _ _ no_such_key])
       (simp_all add: no_stream_store_def demo_store_def refused_def logged_def)
qed (simp_all add: no_stream_store_def demo_store_def refused_def logged_def)

lemma test_trim_minid_unsupported:
  assumes "io_each (\<lambda>i. r_xadd (source t) ''test:stream:trim_minid'' [(''seq'', str_nat i)]
                          (str_nat (i + 1) @ ''-0'') None) [0..<10] w = (Inr u, w1)"
      and "r_execute_command (source t) [''XTRIM'', ''test:stream:trim_minid'', ''MINID'', ''5-0''] w1
             = (Inl (ResponseError msg), w2)"
  shows "test_trim_minid os t w = (Inr True, w2)"
  using assms by (simp add: test_trim_minid_def io_bind_def Let_def)

text \<open>
  Claim C10. When the ten entries are written and the source then answers the raw
  \<^verbatim>\<open>XTRIM key MINID 5-0\<close> with a \<^verbatim>\<open>ResponseError\<close>, \<^verbatim>\<open>test_trim_minid\<close>
  returns \<^verbatim>\<open>True\<close> in the world the refused command left: it neither pauses nor
  queries a store again, so nothing is compared.
\<close>

theorem trim_minid_unsupported_passes:
  assumes "io_each (\<lambda>i. r_xadd (source t) ''test:stream:trim_minid'' [(''seq'', str_nat i)]
                          (str_nat (i + 1) @ ''-0'') None) [0..<10] w = (Inr u, w1)"
      and "r_execute_command (source t) [''XTRIM'', ''test:stream:trim_minid'', ''MINID'', ''5-0''] w1
             = (Inl (ResponseError msg), w2)"
  shows "test_trim_minid os t w = (Inr True, w2)"
  using assms by (rule test_trim_minid_unsupported)

lemma xadd_each_old_source:
  "io_each (\<lambda>i. r_xadd old_source key (pairs i) (entry_id i) maxlen) xs w
     = (Inr (), w @ replicate (length xs) ''source XADD'')"
  by (induction xs arbitrary: w)
     (simp_all add: old_source_def demo_store_def logged_def replicate_app_Cons_same)

theorem trim_minid_unsupported_passes_witness:
  "r_execute_command old_source [''XTRIM'', ''test:stream:trim_minid'', ''MINID'', ''5-0'']
       (replicate 10 ''source XADD'')
     = (Inl (ResponseError ''syntax error''), replicate 10 ''source XADD'' @ [''source XTRIM''])
   \<and> test_trim_minid demo_os \<lparr> source = old_source, target = demo_store ''target'' \<rparr> []
     = (Inr True, replicate 10 ''source XADD'' @ [''source XTRIM''])"
proof -
  have refusal: "r_execute_command old_source [''XTRIM'', ''test:stream:trim_minid'', ''MINID'', ''5-0'']
       (replicate 10 ''source XADD'')
     = (Inl (ResponseError ''syntax error''), replicate 10 ''source XADD'' @ [''source XTRIM''])"
    by (simp add: old_source_def refused_def)
  have "test_trim_minid demo_os \<lparr> source = old_source, target = demo_store ''target'' \<rparr> []
     = (Inr True, replicate 10 ''source XADD'' @ [''source XTRIM''])"
    by (rule trim_minid_unsupported_passes [where u = "()" and ?w1.0 = "replicate 10 ''source XADD''"
           and msg = "''syntax error''"])
       (simp_all add: xadd_each_old_source refusal)
  with refusal show ?thesis by (intro conjI)
qed

end
